theory Spec2Isabelle
  imports Complex_Main
begin

section \<open>FlowForge: the graph execution engine\<close>

text \<open>
  A shallow embedding of \<^verbatim>\<open>app/engine/models.py\<close>, \<^verbatim>\<open>app/engine/registry.py\<close> and
  \<^verbatim>\<open>app/engine/runner.py\<close>.
\<close>

subsection \<open>Python values\<close>

text \<open>
  The state of a run is a \<^verbatim>\<open>Dict[str, Any]\<close> that arrives as JSON. A value is None, a
  bool, an int, a float, a str, a list or a dict with string keys. A dict is an
  association list in insertion order; a key occurs once in it, and a lookup takes the
  first binding.

  The runner compares floats and never computes with them, so a float is the number it
  stands for, an infinity, or NaN. NaN is the one value that differs from itself, and
  Python's containers compare their elements by identity before they compare them by
  \<^verbatim>\<open>==\<close>. So a float carries the identity of its object: \<open>JFloat i v\<close> is the float
  object \<open>i\<close>, of value \<open>v\<close>. \<^verbatim>\<open>copy.deepcopy\<close> hands a float on as the same object.
  For the other values identity makes no difference to a comparison and is not kept.
\<close>

datatype pyfloat = Finite real | PosInf | NegInf | NaN

datatype jval =
    JNull
  | JBool bool
  | JInt int
  | JFloat nat pyfloat
  | JStr string
  | JList "jval list"
  | JDict "(string \<times> jval) list"

type_synonym pydict = "(string \<times> jval) list"

datatype pyexc =
    KeyError string
  | ValueError string
  | TypeError string
  | OtherError string

text \<open>\<^verbatim>\<open>d.get(k)\<close>: the value bound to \<open>k\<close>, None when the key is absent.\<close>

definition dict_get :: "pydict \<Rightarrow> string \<Rightarrow> jval" where
  "dict_get d k = (case map_of d k of None \<Rightarrow> JNull | Some v \<Rightarrow> v)"

definition dict_keys :: "pydict \<Rightarrow> string set" where
  "dict_keys d = set (map fst d)"

subsubsection \<open>Equality\<close>

text \<open>
  The three-way comparison of two floats; NaN is unordered with everything. An int is
  compared with a float by its exact value.
\<close>

datatype ord3 = Less | Equal | Greater | Unordered

definition cmp_real :: "real \<Rightarrow> real \<Rightarrow> ord3" where
  "cmp_real a b = (if a < b then Less else if a = b then Equal else Greater)"

fun cmp_float :: "pyfloat \<Rightarrow> pyfloat \<Rightarrow> ord3" where
  "cmp_float NaN y = Unordered"
| "cmp_float x NaN = Unordered"
| "cmp_float (Finite a) (Finite b) = cmp_real a b"
| "cmp_float PosInf PosInf = Equal"
| "cmp_float NegInf NegInf = Equal"
| "cmp_float PosInf y = Greater"
| "cmp_float x PosInf = Less"
| "cmp_float NegInf y = Less"
| "cmp_float x NegInf = Greater"

definition float_of_int :: "int \<Rightarrow> pyfloat" where
  "float_of_int n = Finite (of_int n)"

definition float_of_bool :: "bool \<Rightarrow> pyfloat" where
  "float_of_bool b = Finite (if b then 1 else 0)"

text \<open>\<^verbatim>\<open>x is y\<close>, as far as a comparison can tell: the same float object.\<close>

fun identical :: "jval \<Rightarrow> jval \<Rightarrow> bool" where
  "identical (JFloat i v) (JFloat j w) = (i = j)"
| "identical x y = False"

text \<open>
  Python's \<^verbatim>\<open>==\<close> on these values: bool is a subclass of int (\<^verbatim>\<open>True == 1\<close>), numbers are
  equal by value (\<^verbatim>\<open>1 == 1.0\<close>, and NaN equals nothing), lists are equal elementwise,
  dicts are equal when they have the same keys with equal values, in any order; values
  of different kinds are unequal. The elements of lists and the values of dicts are
  equal when they are the same object or \<^verbatim>\<open>==\<close> holds of them. It never raises.
\<close>

fun py_eq :: "jval \<Rightarrow> jval \<Rightarrow> bool"
  and py_eq_list :: "jval list \<Rightarrow> jval list \<Rightarrow> bool"
  and py_eq_items :: "pydict \<Rightarrow> pydict \<Rightarrow> bool" where
  "py_eq JNull JNull = True"
| "py_eq (JBool a) (JBool b) = (a = b)"
| "py_eq (JBool a) (JInt b) = ((if a then 1 else 0) = b)"
| "py_eq (JInt a) (JBool b) = (a = (if b then 1 else 0))"
| "py_eq (JInt a) (JInt b) = (a = b)"
| "py_eq (JFloat i a) (JFloat j b) = (cmp_float a b = Equal)"
| "py_eq (JFloat i a) (JInt b) = (cmp_float a (float_of_int b) = Equal)"
| "py_eq (JInt a) (JFloat j b) = (cmp_float (float_of_int a) b = Equal)"
| "py_eq (JFloat i a) (JBool b) = (cmp_float a (float_of_bool b) = Equal)"
| "py_eq (JBool a) (JFloat j b) = (cmp_float (float_of_bool a) b = Equal)"
| "py_eq (JStr a) (JStr b) = (a = b)"
| "py_eq (JList xs) (JList ys) = py_eq_list xs ys"
| "py_eq (JDict a) (JDict b) = (dict_keys a = dict_keys b \<and> py_eq_items a b)"
| "py_eq _ _ = False"
| "py_eq_list [] [] = True"
| "py_eq_list (x # xs) (y # ys) = ((identical x y \<or> py_eq x y) \<and> py_eq_list xs ys)"
| "py_eq_list _ _ = False"
| "py_eq_items [] b = True"
| "py_eq_items ((k, v) # a) b =
     ((case map_of b k of None \<Rightarrow> False | Some w \<Rightarrow> identical v w \<or> py_eq v w)
      \<and> py_eq_items a b)"

definition py_ne :: "jval \<Rightarrow> jval \<Rightarrow> bool" where
  "py_ne x y = (\<not> py_eq x y)"

subsubsection \<open>Ordering\<close>

text \<open>
  Python's \<^verbatim>\<open><\<close>, \<^verbatim>\<open>>\<close>, \<^verbatim>\<open><=\<close>, \<^verbatim>\<open>>=\<close>: defined between two numbers (bool counts as
  int; with a NaN all four are false), two strings (by code point) and two lists (at the
  first position where the elements differ, else by length). Everything else, None
  included, raises \<^verbatim>\<open>TypeError\<close>; the failure carries the names of the two types.
\<close>

definition cmp_int :: "int \<Rightarrow> int \<Rightarrow> ord3" where
  "cmp_int a b = (if a < b then Less else if a = b then Equal else Greater)"

fun cmp_str :: "string \<Rightarrow> string \<Rightarrow> ord3" where
  "cmp_str [] [] = Equal"
| "cmp_str [] (d # ds) = Less"
| "cmp_str (c # cs) [] = Greater"
| "cmp_str (c # cs) (d # ds) =
     (if (of_char c :: nat) < of_char d then Less
      else if (of_char c :: nat) > of_char d then Greater
      else cmp_str cs ds)"

fun type_name :: "jval \<Rightarrow> string" where
  "type_name JNull = ''NoneType''"
| "type_name (JBool _) = ''bool''"
| "type_name (JInt _) = ''int''"
| "type_name (JFloat _ _) = ''float''"
| "type_name (JStr _) = ''str''"
| "type_name (JList _) = ''list''"
| "type_name (JDict _) = ''dict''"

fun py_cmp :: "jval \<Rightarrow> jval \<Rightarrow> (string \<times> string) + ord3"
  and py_cmp_list :: "jval list \<Rightarrow> jval list \<Rightarrow> (string \<times> string) + ord3" where
  "py_cmp (JBool a) (JBool b) = Inr (cmp_int (if a then 1 else 0) (if b then 1 else 0))"
| "py_cmp (JBool a) (JInt b) = Inr (cmp_int (if a then 1 else 0) b)"
| "py_cmp (JInt a) (JBool b) = Inr (cmp_int a (if b then 1 else 0))"
| "py_cmp (JInt a) (JInt b) = Inr (cmp_int a b)"
| "py_cmp (JFloat i a) (JFloat j b) = Inr (cmp_float a b)"
| "py_cmp (JFloat i a) (JInt b) = Inr (cmp_float a (float_of_int b))"
| "py_cmp (JInt a) (JFloat j b) = Inr (cmp_float (float_of_int a) b)"
| "py_cmp (JFloat i a) (JBool b) = Inr (cmp_float a (float_of_bool b))"
| "py_cmp (JBool a) (JFloat j b) = Inr (cmp_float (float_of_bool a) b)"
| "py_cmp (JStr a) (JStr b) = Inr (cmp_str a b)"
| "py_cmp (JList xs) (JList ys) = py_cmp_list xs ys"
| "py_cmp x y = Inl (type_name x, type_name y)"
| "py_cmp_list [] [] = Inr Equal"
| "py_cmp_list [] (y # ys) = Inr Less"
| "py_cmp_list (x # xs) [] = Inr Greater"
| "py_cmp_list (x # xs) (y # ys) =
     (if identical x y \<or> py_eq x y then py_cmp_list xs ys else py_cmp x y)"

definition quoted :: "string \<Rightarrow> string" where
  "quoted s = CHR 0x27 # s @ [CHR 0x27]"

definition py_order :: "string \<Rightarrow> (ord3 \<Rightarrow> bool) \<Rightarrow> jval \<Rightarrow> jval \<Rightarrow> pyexc + bool" where
  "py_order opsym holds x y =
     (case py_cmp x y of
        Inl (tx, ty) \<Rightarrow>
          Inl (TypeError (quoted opsym @ '' not supported between instances of ''
                 @ quoted tx @ '' and '' @ quoted ty))
      | Inr c \<Rightarrow> Inr (holds c))"

definition py_lt :: "jval \<Rightarrow> jval \<Rightarrow> pyexc + bool" where
  "py_lt = py_order ''<'' (\<lambda>c. c = Less)"

definition py_gt :: "jval \<Rightarrow> jval \<Rightarrow> pyexc + bool" where
  "py_gt = py_order ''>'' (\<lambda>c. c = Greater)"

definition py_le :: "jval \<Rightarrow> jval \<Rightarrow> pyexc + bool" where
  "py_le = py_order ''<='' (\<lambda>c. c = Less \<or> c = Equal)"

definition py_ge :: "jval \<Rightarrow> jval \<Rightarrow> pyexc + bool" where
  "py_ge = py_order ''>='' (\<lambda>c. c = Greater \<or> c = Equal)"

subsection \<open>The graph model (models.py)\<close>

datatype NodeType = COMPUTATION | TOOL

record NodeConfig =
  name :: string
  type :: NodeType
  tool_name :: "string option"
  description :: "string option"

text \<open>
  \<open>operator\<close> is declared \<^verbatim>\<open>Optional[Literal["==", "!=", "<", ">", "<=", ">="]]\<close>; it is kept
  as the string that \<^verbatim>\<open>_compare\<close> receives. \<open>value\<close> is \<^verbatim>\<open>Optional[Any]\<close>, None being
  \<open>JNull\<close>.
\<close>

record EdgeConfig =
  source :: string
  target :: string
  condition_key :: "string option"
  operator :: "string option"
  "value" :: jval

record Graph =
  id_graph :: string
  name_graph :: "string option"
  entrypoint :: string
  nodes :: "string \<rightharpoonup> NodeConfig"
  edges :: "EdgeConfig list"

subsection \<open>Condition evaluation and edge resolution (runner.py)\<close>

text \<open>\<^verbatim>\<open>key.split(".")\<close>: the pieces between the dots; never the empty list.\<close>

fun split_dot :: "string \<Rightarrow> string list" where
  "split_dot [] = [[]]"
| "split_dot (c # cs) =
     (if c = CHR ''.'' then [] # split_dot cs
      else (case split_dot cs of [] \<Rightarrow> [[c]] | p # ps \<Rightarrow> (c # p) # ps))"

text \<open>
  The loop of \<^verbatim>\<open>_get_from_state\<close>: \<open>walk value parts\<close>. A value that is not a dict ends the
  walk with None; \<^verbatim>\<open>value.get(p)\<close> is None for a missing key.
\<close>

fun walk :: "jval \<Rightarrow> string list \<Rightarrow> jval" where
  "walk v [] = v"
| "walk (JDict d) (p # ps) = walk (dict_get d p) ps"
| "walk v (p # ps) = JNull"

definition get_from_state :: "pydict \<Rightarrow> string \<Rightarrow> jval" where
  "get_from_state state key = walk (JDict state) (split_dot key)"

definition compare :: "jval \<Rightarrow> string option \<Rightarrow> jval \<Rightarrow> pyexc + bool" where
  "compare lhs op rhs =
     (case op of
        None \<Rightarrow> Inr True
      | Some s \<Rightarrow>
          if s = ''=='' then Inr (py_eq lhs rhs)
          else if s = ''!='' then Inr (py_ne lhs rhs)
          else if s = ''<'' then py_lt lhs rhs
          else if s = ''>'' then py_gt lhs rhs
          else if s = ''<='' then py_le lhs rhs
          else if s = ''>='' then py_ge lhs rhs
          else Inr False)"

text \<open>
  \<^verbatim>\<open>if edge.condition_key:\<close> and \<^verbatim>\<open>if not node_cfg.tool_name:\<close> are Python truthiness:
  None and the empty string are both false.
\<close>

definition truthy :: "string option \<Rightarrow> bool" where
  "truthy k = (case k of None \<Rightarrow> False | Some s \<Rightarrow> s \<noteq> [])"

text \<open>What the loop body returns once an edge is taken.\<close>

definition follow :: "EdgeConfig \<Rightarrow> string option" where
  "follow edge = (if target edge = ''__end__'' then None else Some (target edge))"

text \<open>The \<^verbatim>\<open>for edge in candidates\<close> loop of \<^verbatim>\<open>choose_next_node\<close>.\<close>

fun scan_candidates :: "pydict \<Rightarrow> EdgeConfig list \<Rightarrow> pyexc + string option" where
  "scan_candidates state [] = Inr None"
| "scan_candidates state (edge # rest) =
     (if truthy (condition_key edge) then
        (case compare (get_from_state state (the (condition_key edge)))
                (operator edge) (value edge) of
           Inl err \<Rightarrow> Inl err
         | Inr matched \<Rightarrow>
             if \<not> matched then scan_candidates state rest
             else Inr (follow edge))
      else Inr (follow edge))"

definition candidates :: "Graph \<Rightarrow> string \<Rightarrow> EdgeConfig list" where
  "candidates graph current_node = filter (\<lambda>e. source e = current_node) (edges graph)"

definition choose_next_node :: "Graph \<Rightarrow> string \<Rightarrow> pydict \<Rightarrow> pyexc + string option" where
  "choose_next_node graph current_node state =
     scan_candidates state (candidates graph current_node)"

text \<open>
  \<^verbatim>\<open>compute_diff\<close>. The result dict is a finite map: Python's dict equality ignores the
  order of insertion. \<open>diff_loop\<close> is the \<^verbatim>\<open>for k in all_keys\<close> loop over an enumeration
  of the key set. Python does not fix the order in which a set is enumerated;
  \<open>all_keys\<close> is one enumeration, each key once.
\<close>

definition diff_entry :: "pydict \<Rightarrow> pydict \<Rightarrow> string \<Rightarrow> jval" where
  "diff_entry before after k =
     JDict [(''before'', dict_get before k), (''after'', dict_get after k)]"

fun diff_loop ::
  "pydict \<Rightarrow> pydict \<Rightarrow> string list \<Rightarrow> (string \<rightharpoonup> jval) \<Rightarrow> (string \<rightharpoonup> jval)" where
  "diff_loop before after [] diff = diff"
| "diff_loop before after (k # ks) diff =
     (if py_ne (dict_get before k) (dict_get after k)
      then diff_loop before after ks (diff(k \<mapsto> diff_entry before after k))
      else diff_loop before after ks diff)"

definition all_keys :: "pydict \<Rightarrow> pydict \<Rightarrow> string list" where
  "all_keys before after = remdups (map fst before @ map fst after)"

definition compute_diff :: "pydict \<Rightarrow> pydict \<Rightarrow> (string \<rightharpoonup> jval)" where
  "compute_diff before after = diff_loop before after (all_keys before after) Map.empty"

subsection \<open>The store\<close>

text \<open>
  Node functions receive the state dict by reference and may change it in place, so the
  dicts that are passed around live in a store: \<open>cells h a\<close> is the content of the dict
  at address \<open>a\<close>, nested values included, and \<open>next_free h\<close> is the first address not
  yet in use. \<^verbatim>\<open>copy.deepcopy\<close> builds a new dict with the same content.
\<close>

type_synonym addr = nat

record heap =
  cells :: "addr \<Rightarrow> pydict"
  next_free :: addr

definition deepcopy :: "addr \<Rightarrow> heap \<Rightarrow> heap \<times> addr" where
  "deepcopy a h =
     (h\<lparr>cells := (cells h)(next_free h := cells h a), next_free := Suc (next_free h)\<rparr>,
      next_free h)"

subsection \<open>The function registry (registry.py)\<close>

text \<open>
  A registered callable gets the address of the state dict. It may raise, change the
  store, and return None or the address of a dict. An \<^verbatim>\<open>async def\<close> function yields a
  coroutine, which runs when it is awaited; a plain function runs when it is called, and
  what it returns may itself be a coroutine. Awaiting runs the coroutine to its end:
  other tasks that the event loop may interleave are outside this model.
\<close>

type_synonym awaitable = "heap \<Rightarrow> pyexc + (heap \<times> addr option)"

datatype pyret = Plain "addr option" | Coroutine awaitable

datatype pyfunc =
    AsyncDef "addr \<Rightarrow> awaitable"
  | Def "addr \<Rightarrow> heap \<Rightarrow> pyexc + (heap \<times> pyret)"

record registry =
  NODE_REGISTRY :: "string \<rightharpoonup> pyfunc"
  TOOL_REGISTRY :: "string \<rightharpoonup> pyfunc"

definition register_node :: "string \<Rightarrow> pyfunc \<Rightarrow> registry \<Rightarrow> registry" where
  "register_node nm fn reg = reg\<lparr>NODE_REGISTRY := (NODE_REGISTRY reg)(nm \<mapsto> fn)\<rparr>"

definition register_tool :: "string \<Rightarrow> pyfunc \<Rightarrow> registry \<Rightarrow> registry" where
  "register_tool nm fn reg = reg\<lparr>TOOL_REGISTRY := (TOOL_REGISTRY reg)(nm \<mapsto> fn)\<rparr>"

definition get_node :: "registry \<Rightarrow> string \<Rightarrow> pyexc + pyfunc" where
  "get_node reg nm =
     (case NODE_REGISTRY reg nm of
        None \<Rightarrow> Inl (KeyError (''Node function '' @ quoted nm @ '' is not registered''))
      | Some fn \<Rightarrow> Inr fn)"

definition get_tool :: "registry \<Rightarrow> string \<Rightarrow> pyexc + pyfunc" where
  "get_tool reg nm =
     (case TOOL_REGISTRY reg nm of
        None \<Rightarrow> Inl (KeyError (''Tool '' @ quoted nm @ '' is not registered''))
      | Some fn \<Rightarrow> Inr fn)"

text \<open>The variable \<^verbatim>\<open>result\<close> of \<^verbatim>\<open>call_maybe_async\<close>, after the awaits.\<close>

definition awaited_result :: "pyfunc \<Rightarrow> addr \<Rightarrow> heap \<Rightarrow> pyexc + (heap \<times> addr option)" where
  "awaited_result fn state h =
     (case fn of
        AsyncDef f \<Rightarrow> f state h
      | Def f \<Rightarrow>
          (case f state h of
             Inl err \<Rightarrow> Inl err
           | Inr (h1, Plain r) \<Rightarrow> Inr (h1, r)
           | Inr (h1, Coroutine c) \<Rightarrow> c h1))"

definition call_maybe_async :: "pyfunc \<Rightarrow> addr \<Rightarrow> heap \<Rightarrow> pyexc + (heap \<times> addr)" where
  "call_maybe_async fn state h =
     (case awaited_result fn state h of
        Inl err \<Rightarrow> Inl err
      | Inr (h', result) \<Rightarrow>
          (case result of None \<Rightarrow> Inr (h', state) | Some r \<Rightarrow> Inr (h', r)))"

subsection \<open>The runner (runner.py)\<close>

definition execute_node :: "registry \<Rightarrow> NodeConfig \<Rightarrow> addr \<Rightarrow> heap \<Rightarrow> pyexc + (heap \<times> addr)" where
  "execute_node reg node_cfg state h =
     (if type node_cfg = COMPUTATION then
        (case get_node reg (name node_cfg) of
           Inl err \<Rightarrow> Inl err
         | Inr fn \<Rightarrow> call_maybe_async fn state h)
      else if \<not> truthy (tool_name node_cfg) then
        Inl (ValueError (''Tool node '' @ quoted (name node_cfg) @ '' missing ''
               @ quoted ''tool_name''))
      else
        (case get_tool reg (the (tool_name node_cfg)) of
           Inl err \<Rightarrow> Inl err
         | Inr fn \<Rightarrow> call_maybe_async fn state h))"

text \<open>
  A step record. \<^verbatim>\<open>started_at\<close> and \<^verbatim>\<open>finished_at\<close> are readings of the wall clock and
  are not part of the model. \<open>state_diff\<close> is the diff as it is when the record is
  appended. Its \<^verbatim>\<open>before\<close> values belong to the private copy \<^verbatim>\<open>before\<close>; its \<^verbatim>\<open>after\<close>
  values are the objects of the state themselves (\<^verbatim>\<open>after.get(k)\<close> is stored, not a copy),
  so a later step that changes such a list or dict in place changes what the record
  shows. The store keeps the content of a state dict as a whole and does not follow
  that: in a record that is not the last one, an \<^verbatim>\<open>after\<close> value that is a list or a dict
  is the content the object had when the record was appended.
\<close>

record StepLog =
  node :: string
  state_diff :: "string \<rightharpoonup> jval"
  info :: "string option"

text \<open>
  The \<^verbatim>\<open>while\<close> loop of \<^verbatim>\<open>run_graph\<close>, over its four variables \<^verbatim>\<open>state\<close>, \<^verbatim>\<open>logs\<close>,
  \<^verbatim>\<open>current\<close> and \<^verbatim>\<open>steps\<close>, and the store. \<^verbatim>\<open>before\<close> is a private copy that is only
  read, so it is the content of the state dict at that moment.
\<close>

function run_loop ::
  "Graph \<Rightarrow> registry \<Rightarrow> int \<Rightarrow> heap \<Rightarrow> addr \<Rightarrow> StepLog list \<Rightarrow> string option \<Rightarrow> int
     \<Rightarrow> pyexc + (heap \<times> addr \<times> StepLog list)" where
  "run_loop graph reg max_steps h state logs current steps =
     (case current of
        None \<Rightarrow> Inr (h, state, logs)
      | Some cur \<Rightarrow>
          if \<not> steps < max_steps then Inr (h, state, logs)
          else
            (case nodes graph cur of
               None \<Rightarrow> Inl (KeyError (''Node '' @ quoted cur @ '' not found in graph''))
             | Some node_cfg \<Rightarrow>
                 (case execute_node reg node_cfg state h of
                    Inl err \<Rightarrow> Inl err
                  | Inr (h', state') \<Rightarrow>
                      (case choose_next_node graph cur (cells h' state') of
                         Inl err \<Rightarrow> Inl err
                       | Inr nxt \<Rightarrow>
                           run_loop graph reg max_steps h' state'
                             (logs @ [\<lparr>node = cur,
                                       state_diff = compute_diff (cells h state) (cells h' state'),
                                       info = description node_cfg\<rparr>])
                             nxt (steps + 1)))))"
  by pat_completeness auto
termination
  by (relation "measure (\<lambda>(graph, reg, max_steps, h, state, logs, current, steps).
                  nat (max_steps - steps))") auto

definition run_graph ::
  "Graph \<Rightarrow> registry \<Rightarrow> addr \<Rightarrow> int \<Rightarrow> heap \<Rightarrow> pyexc + (heap \<times> addr \<times> StepLog list)" where
  "run_graph graph reg initial_state max_steps h =
     (case deepcopy initial_state h of
        (h0, state) \<Rightarrow> run_loop graph reg max_steps h0 state [] (Some (entrypoint graph)) 0)"

declare run_loop.simps [simp del]

subsection \<open>Notions used by the properties\<close>

text \<open>The inverse of \<open>split_dot\<close>: the pieces with a dot between them.\<close>

fun join_dot :: "string list \<Rightarrow> string" where
  "join_dot [] = []"
| "join_dot [p] = p"
| "join_dot (p # q # ps) = p @ CHR ''.'' # join_dot (q # ps)"

text \<open>
  What the loop body of \<^verbatim>\<open>choose_next_node\<close> decides about one edge: \<open>Inr True\<close> when the
  edge is unconditional or its condition matches, \<open>Inr False\<close> when its condition does
  not match, \<open>Inl\<close> when the comparison raises.
\<close>

definition edge_matches :: "pydict \<Rightarrow> EdgeConfig \<Rightarrow> pyexc + bool" where
  "edge_matches state edge =
     (if truthy (condition_key edge)
      then compare (get_from_state state (the (condition_key edge))) (operator edge) (value edge)
      else Inr True)"

text \<open>
  The values that Python can build: the keys of every dict, at any depth, are distinct.
\<close>

fun wf_val :: "jval \<Rightarrow> bool"
  and wf_list :: "jval list \<Rightarrow> bool"
  and wf_items :: "pydict \<Rightarrow> bool" where
  "wf_val (JList xs) = wf_list xs"
| "wf_val (JDict d) = (distinct (map fst d) \<and> wf_items d)"
| "wf_val v = True"
| "wf_list [] = True"
| "wf_list (x # xs) = (wf_val x \<and> wf_list xs)"
| "wf_items [] = True"
| "wf_items ((k, v) # d) = (wf_val v \<and> wf_items d)"

fun is_nan :: "jval \<Rightarrow> bool" where
  "is_nan (JFloat i NaN) = True"
| "is_nan v = False"

text \<open>
  The part of a step record that no later step can change. A diff entry holds the
  \<^verbatim>\<open>before\<close> value, which belongs to the private copy of the state, and the \<^verbatim>\<open>after\<close>
  value, which is the object of the state itself: when that is a list or a dict, a later
  step that changes it in place changes what the record shows. \<open>settled\<close> drops such
  \<^verbatim>\<open>after\<close> values and keeps everything else.
\<close>

fun mutable :: "jval \<Rightarrow> bool" where
  "mutable (JList xs) = True"
| "mutable (JDict d) = True"
| "mutable v = False"

fun settled_entry :: "jval \<Rightarrow> jval" where
  "settled_entry (JDict kvs) = JDict (filter (\<lambda>(k, v). \<not> (k = ''after'' \<and> mutable v)) kvs)"
| "settled_entry v = v"

definition settled :: "StepLog \<Rightarrow> StepLog" where
  "settled entry = entry\<lparr>state_diff := map_option settled_entry \<circ> state_diff entry\<rparr>"

text \<open>
  One pass through the body of the loop that goes on to a next node: the node is found,
  its step function returns, and an edge to another node is selected. Its results are the
  new store, the new state, the next node and the record of the step. \<open>iterations n\<close> is
  \<open>n\<close> such passes in a row, with their records in order; it is None as soon as one of
  them raises or ends the run.
\<close>

definition iteration ::
  "Graph \<Rightarrow> registry \<Rightarrow> heap \<Rightarrow> addr \<Rightarrow> string \<Rightarrow> (heap \<times> addr \<times> string \<times> StepLog) option" where
  "iteration graph reg h state cur =
     (case nodes graph cur of
        None \<Rightarrow> None
      | Some node_cfg \<Rightarrow>
          (case execute_node reg node_cfg state h of
             Inl err \<Rightarrow> None
           | Inr (h', state') \<Rightarrow>
               (case choose_next_node graph cur (cells h' state') of
                  Inr (Some nxt) \<Rightarrow>
                    Some (h', state', nxt,
                          \<lparr>node = cur,
                           state_diff = compute_diff (cells h state) (cells h' state'),
                           info = description node_cfg\<rparr>)
                | _ \<Rightarrow> None)))"

fun iterations ::
  "Graph \<Rightarrow> registry \<Rightarrow> nat \<Rightarrow> heap \<Rightarrow> addr \<Rightarrow> string
     \<Rightarrow> (heap \<times> addr \<times> string \<times> StepLog list) option" where
  "iterations graph reg 0 h state cur = Some (h, state, cur, [])"
| "iterations graph reg (Suc n) h state cur =
     (case iteration graph reg h state cur of
        None \<Rightarrow> None
      | Some (h1, state1, nxt, entry) \<Rightarrow>
          (case iterations graph reg n h1 state1 nxt of
             None \<Rightarrow> None
           | Some (h', state', cur', entries) \<Rightarrow> Some (h', state', cur', entry # entries)))"

text \<open>
  A traversal that never reaches a terminating transition: \<open>visits\<close> holds of the store,
  the state and the current node of every iteration, and from each such iteration the
  node is found, its step function returns and an edge to a next node is selected.
\<close>

definition keeps_going :: "Graph \<Rightarrow> registry \<Rightarrow> (heap \<Rightarrow> addr \<Rightarrow> string \<Rightarrow> bool) \<Rightarrow> bool" where
  "keeps_going graph reg visits =
     (\<forall>h state cur. visits h state cur \<longrightarrow>
        (\<exists>node_cfg h' state' nxt.
           nodes graph cur = Some node_cfg
           \<and> execute_node reg node_cfg state h = Inr (h', state')
           \<and> choose_next_node graph cur (cells h' state') = Inr (Some nxt)
           \<and> visits h' state' nxt))"









subsection \<open>Example step functions, graphs and stores\<close>

text \<open>\<^verbatim>\<open>d[k] = v\<close>: the binding is replaced in place, or added at the end.\<close>

fun dict_set :: "pydict \<Rightarrow> string \<Rightarrow> jval \<Rightarrow> pydict" where
  "dict_set [] k v = [(k, v)]"
| "dict_set ((k', v') # d) k v = (if k' = k then (k, v) # d else (k', v') # dict_set d k v)"

text \<open>
  \<^verbatim>\<open>async def bump(state): state["n"] = n + 1; return state\<close>, with \<^verbatim>\<open>n\<close> read from the
  state (1 is stored when it holds no int), and
  \<^verbatim>\<open>def mark_visited(state): state["visited"] = True\<close>, which returns nothing.
\<close>

definition bump :: pyfunc where
  "bump = AsyncDef (\<lambda>state h.
     Inr (h\<lparr>cells := (cells h)(state := dict_set (cells h state) ''n''
             (case dict_get (cells h state) ''n'' of JInt n \<Rightarrow> JInt (n + 1) | _ \<Rightarrow> JInt 1))\<rparr>,
          Some state))"

definition mark_visited :: pyfunc where
  "mark_visited = Def (\<lambda>state h.
     Inr (h\<lparr>cells := (cells h)(state := dict_set (cells h state) ''visited'' (JBool True))\<rparr>,
          Plain None))"

definition example_registry :: registry where
  "example_registry =
     \<lparr>NODE_REGISTRY = [''A'' \<mapsto> bump, ''B'' \<mapsto> mark_visited], TOOL_REGISTRY = Map.empty\<rparr>"

definition node_A :: NodeConfig where
  "node_A = \<lparr>name = ''A'', type = COMPUTATION, tool_name = None, description = None\<rparr>"

definition node_B :: NodeConfig where
  "node_B = \<lparr>name = ''B'', type = COMPUTATION, tool_name = None, description = None\<rparr>"

definition unconditional :: "string \<Rightarrow> string \<Rightarrow> EdgeConfig" where
  "unconditional s t =
     \<lparr>source = s, target = t, condition_key = None, operator = None, value = JNull\<rparr>"

text \<open>One node whose only edge leads to \<^verbatim>\<open>__end__\<close>, which is not a node.\<close>

definition end_graph :: Graph where
  "end_graph =
     \<lparr>id_graph = ''end'', name_graph = None, entrypoint = ''A'',
      nodes = [''A'' \<mapsto> node_A], edges = [unconditional ''A'' ''__end__'']\<rparr>"

text \<open>
  The caller's state \<^verbatim>\<open>{"n": 0}\<close> is at address 0; \<open>working_heap\<close> is the store after
  \<^verbatim>\<open>run_graph\<close> has copied it to address 1.
\<close>

definition example_heap :: heap where
  "example_heap = \<lparr>cells = (\<lambda>a. [])(0 := [(''n'', JInt 0)]), next_free = 1\<rparr>"

definition working_heap :: heap where
  "working_heap =
     \<lparr>cells = (\<lambda>a. [])(0 := [(''n'', JInt 0)], 1 := [(''n'', JInt 0)]), next_free = 2\<rparr>"

text \<open>A two-node cycle with no exit: A and B, each with one unconditional edge to the other.\<close>

definition cycle_graph :: Graph where
  "cycle_graph =
     \<lparr>id_graph = ''cycle'', name_graph = None, entrypoint = ''A'',
      nodes = [''A'' \<mapsto> node_A, ''B'' \<mapsto> node_B],
      edges = [unconditional ''A'' ''B'', unconditional ''B'' ''A'']\<rparr>"

text \<open>
  One node whose only edge compares the key \<^verbatim>\<open>score\<close>, which the example state does not
  hold, with \<^verbatim>\<open><\<close>.
\<close>

definition lt_graph :: Graph where
  "lt_graph =
     \<lparr>id_graph = ''lt'', name_graph = None, entrypoint = ''A'',
      nodes = [''A'' \<mapsto> node_A],
      edges = [\<lparr>source = ''A'', target = ''A'', condition_key = Some ''score'',
                operator = Some ''<'', value = JInt 5\<rparr>]\<rparr>"

section \<open>Properties\<close>

subsection \<open>Dotted-path lookup\<close>

lemma split_dot_not_Nil: "split_dot key \<noteq> []"
  by (cases key) (auto split: list.splits)

lemma join_split_dot: "join_dot (split_dot key) = key"
proof (induction key)
  case Nil
  show ?case by simp
next
  case (Cons c cs)
  obtain p ps where "split_dot cs = p # ps"
    using split_dot_not_Nil [of cs] by (cases "split_dot cs") auto
  with Cons show ?case by (cases ps) auto
qed

lemma split_dot_pieces: "p \<in> set (split_dot key) \<Longrightarrow> CHR ''.'' \<notin> set p"
proof (induction key arbitrary: p)
  case Nil
  then show ?case by simp
next
  case (Cons c cs)
  obtain q qs where "split_dot cs = q # qs"
    using split_dot_not_Nil [of cs] by (cases "split_dot cs") auto
  with Cons show ?case by (auto split: if_splits)
qed

lemma walk_not_dict: "(\<forall>d. v \<noteq> JDict d) \<Longrightarrow> walk v (p # ps) = JNull"
  by (cases v) auto

text \<open>
  Claim C6. \<^verbatim>\<open>_get_from_state\<close> splits the key at the dots (the pieces hold no dot and,
  joined by dots, give the key back) and walks the state by the successive pieces: with
  no piece left it returns the value reached, at a dict it goes on from \<^verbatim>\<open>get\<close> of the
  piece, and at a value that is not a dict it returns None; it has no failing outcome.
  So \<^verbatim>\<open>lookup({"a": {"b": 5}}, "a.b")\<close> is 5 and \<^verbatim>\<open>lookup({"a": 1}, "a.b")\<close> is None.
\<close>

theorem get_from_state_walks:
  "get_from_state state key = walk (JDict state) (split_dot key)
   \<and> join_dot (split_dot key) = key
   \<and> (\<forall>piece \<in> set (split_dot key). CHR ''.'' \<notin> set piece)
   \<and> walk v [] = v
   \<and> walk (JDict d) (p # ps) = walk (dict_get d p) ps
   \<and> ((\<forall>d'. v \<noteq> JDict d') \<longrightarrow> walk v (p # ps) = JNull)
   \<and> get_from_state [(''a'', JDict [(''b'', JInt 5)])] ''a.b'' = JInt 5
   \<and> get_from_state [(''a'', JInt 1)] ''a.b'' = JNull"
proof -
  have "get_from_state [(''a'', JDict [(''b'', JInt 5)])] ''a.b'' = JInt 5"
    by (simp add: get_from_state_def dict_get_def)
  moreover have "get_from_state [(''a'', JInt 1)] ''a.b'' = JNull"
    by (simp add: get_from_state_def dict_get_def)
  moreover have "(\<forall>d'. v \<noteq> JDict d') \<longrightarrow> walk v (p # ps) = JNull"
    using walk_not_dict by blast
  ultimately show ?thesis
    by (simp add: get_from_state_def join_split_dot split_dot_pieces)
qed

theorem get_from_state_walks_witness:
  "split_dot ''a.b'' = [''a'', ''b'']
   \<and> join_dot [''a'', ''b''] = ''a.b''
   \<and> (\<forall>d'. JInt 1 \<noteq> JDict d')
   \<and> walk (JInt 1) [''b''] = JNull
   \<and> get_from_state [(''a'', JInt 1)] ''a.b'' = walk (JDict [(''a'', JInt 1)]) [''a'', ''b'']"
  using get_from_state_walks [of "[(''a'', JInt 1)]" "''a.b''" "JInt 1" "[]" "''b''" "[]"]
  by simp

subsection \<open>Edge resolution\<close>

lemma scan_skip:
  "\<forall>x \<in> set pre. edge_matches state x = Inr False \<Longrightarrow>
   scan_candidates state (pre @ rest) = scan_candidates state rest"
  by (induction pre) (auto simp: edge_matches_def split: if_splits)

lemma scan_take:
  "edge_matches state e = Inr True \<Longrightarrow> scan_candidates state (e # rest) = Inr (follow e)"
  by (auto simp: edge_matches_def split: if_splits)

lemma scan_raise:
  "edge_matches state e = Inl err \<Longrightarrow> scan_candidates state (e # rest) = Inl err"
  by (auto simp: edge_matches_def split: if_splits)

lemma scan_none:
  "\<forall>x \<in> set es. edge_matches state x = Inr False \<Longrightarrow> scan_candidates state es = Inr None"
  using scan_skip [of es state "[]"] by simp

lemma choose_takes_first:
  assumes "edges graph = pre @ e # post"
    and "source e = current_node"
    and "\<forall>x \<in> set pre. source x = current_node \<longrightarrow> edge_matches state x = Inr False"
    and "edge_matches state e = Inr True"
  shows "choose_next_node graph current_node state = Inr (follow e)"
proof -
  let ?own = "\<lambda>x. source x = current_node"
  have "candidates graph current_node = filter ?own pre @ e # filter ?own post"
    using assms(1,2) by (simp add: candidates_def)
  moreover have "\<forall>x \<in> set (filter ?own pre). edge_matches state x = Inr False"
    using assms(3) by simp
  ultimately have "choose_next_node graph current_node state
      = scan_candidates state (e # filter ?own post)"
    unfolding choose_next_node_def by (simp only: scan_skip)
  also have "\<dots> = Inr (follow e)"
    using assms(4) by (rule scan_take)
  finally show ?thesis .
qed

lemma choose_none:
  "\<forall>x \<in> set (edges graph). source x = cur \<longrightarrow> edge_matches state x = Inr False \<Longrightarrow>
   choose_next_node graph cur state = Inr None"
  by (simp add: choose_next_node_def candidates_def scan_none)

text \<open>
  Claim C1. Let \<open>e\<close> be an edge of \<open>graph.edges\<close> that leaves the current node and is
  unconditional or has a matching condition, and let no edge declared before it that
  leaves the current node match. Then \<^verbatim>\<open>choose_next_node\<close> selects \<open>e\<close>: it returns the
  target of \<open>e\<close> (None for \<^verbatim>\<open>__end__\<close>), whatever the edges declared after \<open>e\<close> are and
  whether they match, and whatever the edges that leave other nodes are.
\<close>

theorem first_match_wins:
  assumes "edges graph = pre @ e # post"
    and "source e = current_node"
    and "\<forall>x \<in> set pre. source x = current_node \<longrightarrow> edge_matches state x = Inr False"
    and "edge_matches state e = Inr True"
  shows "choose_next_node graph current_node state
           = Inr (if target e = ''__end__'' then None else Some (target e))"
  using choose_takes_first [OF assms] by (simp add: follow_def)

text \<open>
  Two edges leave A and both match in the state \<^verbatim>\<open>{"x": 1}\<close>; the earlier one, to B,
  is chosen.
\<close>

theorem first_match_wins_witness:
  "edge_matches [(''x'', JInt 1)]
     \<lparr>source = ''A'', target = ''B'', condition_key = Some ''x'', operator = Some ''=='',
      value = JInt 1\<rparr> = Inr True
   \<and> edge_matches [(''x'', JInt 1)]
     \<lparr>source = ''A'', target = ''C'', condition_key = None, operator = None,
      value = JNull\<rparr> = Inr True
   \<and> choose_next_node
       \<lparr>id_graph = ''g'', name_graph = None, entrypoint = ''A'', nodes = Map.empty,
        edges = [\<lparr>source = ''B'', target = ''A'', condition_key = None, operator = None,
                  value = JNull\<rparr>,
                 \<lparr>source = ''A'', target = ''B'', condition_key = Some ''x'',
                  operator = Some ''=='', value = JInt 1\<rparr>,
                 \<lparr>source = ''A'', target = ''C'', condition_key = None, operator = None,
                  value = JNull\<rparr>]\<rparr>
       ''A'' [(''x'', JInt 1)] = Inr (Some ''B'')"
  using first_match_wins
    [of "\<lparr>id_graph = ''g'', name_graph = None, entrypoint = ''A'', nodes = Map.empty,
        edges = [\<lparr>source = ''B'', target = ''A'', condition_key = None, operator = None,
                  value = JNull\<rparr>,
                 \<lparr>source = ''A'', target = ''B'', condition_key = Some ''x'',
                  operator = Some ''=='', value = JInt 1\<rparr>,
                 \<lparr>source = ''A'', target = ''C'', condition_key = None, operator = None,
                  value = JNull\<rparr>]\<rparr>"
        "[\<lparr>source = ''B'', target = ''A'', condition_key = None, operator = None,
           value = JNull\<rparr>]"
        "\<lparr>source = ''A'', target = ''B'', condition_key = Some ''x'', operator = Some ''=='',
          value = JInt 1\<rparr>"
        "[\<lparr>source = ''A'', target = ''C'', condition_key = None, operator = None,
           value = JNull\<rparr>]"
        "''A''" "[(''x'', JInt 1)]"]
  by (simp add: edge_matches_def truthy_def compare_def get_from_state_def dict_get_def)

lemma edge_matches_no_operator: "operator e = None \<Longrightarrow> edge_matches state e = Inr True"
  by (simp add: edge_matches_def compare_def)

lemma scan_replace:
  "edge_matches state e = Inr True \<Longrightarrow> edge_matches state e' = Inr True \<Longrightarrow>
   target e = target e' \<Longrightarrow>
   scan_candidates state (xs @ e # ys) = scan_candidates state (xs @ e' # ys)"
proof (induction xs)
  case Nil
  then show ?case by (simp only: append_Nil scan_take follow_def)
next
  case (Cons x xs)
  then show ?case by (simp split: sum.splits)
qed

text \<open>
  Claim C9. An edge whose operator is None matches in every state, whatever its
  condition key looks up and whatever its value field holds: \<^verbatim>\<open>_compare\<close> returns True
  for it, and clearing its condition key, which makes it an unconditional edge, changes
  the result of \<^verbatim>\<open>choose_next_node\<close> for no graph, node or state.
\<close>

theorem no_operator_is_unconditional:
  assumes "edges graph = pre @ e # post"
    and "operator e = None"
  shows "compare lhs (operator e) rhs = Inr True
     \<and> edge_matches state e = Inr True
     \<and> choose_next_node graph current_node state
        = choose_next_node (graph\<lparr>edges := pre @ e\<lparr>condition_key := None\<rparr> # post\<rparr>)
            current_node state"
proof -
  let ?own = "\<lambda>x. source x = current_node"
  let ?e' = "e\<lparr>condition_key := None\<rparr>"
  have m: "edge_matches state e = Inr True"
    using assms(2) by (rule edge_matches_no_operator)
  have m': "edge_matches state ?e' = Inr True"
    by (simp add: edge_matches_def truthy_def)
  have "scan_candidates state (filter ?own pre @ e # filter ?own post)
      = scan_candidates state (filter ?own pre @ ?e' # filter ?own post)"
    using m m' by (rule scan_replace) simp
  then have "choose_next_node graph current_node state
        = choose_next_node (graph\<lparr>edges := pre @ ?e' # post\<rparr>) current_node state"
    using assms(1) by (simp add: choose_next_node_def candidates_def)
  with m assms(2) show ?thesis by (simp add: compare_def)
qed

text \<open>
  The edge from A to B names the key \<^verbatim>\<open>x\<close> and the value 7 but no operator; in the state
  \<^verbatim>\<open>{"x": 3}\<close> it is taken, before the unconditional edge to C.
\<close>

theorem no_operator_is_unconditional_witness:
  "compare (JInt 3) None (JInt 7) = Inr True
   \<and> choose_next_node
       \<lparr>id_graph = ''g'', name_graph = None, entrypoint = ''A'', nodes = Map.empty,
        edges = [\<lparr>source = ''A'', target = ''B'', condition_key = Some ''x'',
                  operator = None, value = JInt 7\<rparr>,
                 \<lparr>source = ''A'', target = ''C'', condition_key = None, operator = None,
                  value = JNull\<rparr>]\<rparr>
       ''A'' [(''x'', JInt 3)] = Inr (Some ''B'')"
  using no_operator_is_unconditional
    [of "\<lparr>id_graph = ''g'', name_graph = None, entrypoint = ''A'', nodes = Map.empty,
        edges = [\<lparr>source = ''A'', target = ''B'', condition_key = Some ''x'',
                  operator = None, value = JInt 7\<rparr>,
                 \<lparr>source = ''A'', target = ''C'', condition_key = None, operator = None,
                  value = JNull\<rparr>]\<rparr>"
        "[]"
        "\<lparr>source = ''A'', target = ''B'', condition_key = Some ''x'', operator = None,
          value = JInt 7\<rparr>"
        "[\<lparr>source = ''A'', target = ''C'', condition_key = None, operator = None,
           value = JNull\<rparr>]"
        "JInt 3" "JInt 7" "[(''x'', JInt 3)]" "''A''"]
  by (simp add: choose_next_node_def candidates_def truthy_def follow_def)

subsection \<open>The invocation adapter\<close>

text \<open>
  Claim C8. When the awaited result of the function is a state dict,
  \<^verbatim>\<open>call_maybe_async\<close> returns that dict; when it is None, it returns the very dict that
  was passed in, with whatever the function did to it in place; an error of the function
  is passed on. The awaited result is what an \<^verbatim>\<open>async def\<close> function computes, what a
  plain function returns, or what the coroutine returned by a plain function computes.
\<close>

theorem call_maybe_async_uniform:
  "(awaited_result fn state h = Inr (h', Some r) \<longrightarrow> call_maybe_async fn state h = Inr (h', r))
   \<and> (awaited_result fn state h = Inr (h', None)
        \<longrightarrow> call_maybe_async fn state h = Inr (h', state))
   \<and> (awaited_result fn state h = Inl err \<longrightarrow> call_maybe_async fn state h = Inl err)
   \<and> awaited_result (AsyncDef f) state h = f state h
   \<and> (g state h = Inr (h1, Plain res) \<longrightarrow> awaited_result (Def g) state h = Inr (h1, res))
   \<and> (g state h = Inr (h1, Coroutine c) \<longrightarrow> awaited_result (Def g) state h = c h1)
   \<and> (g state h = Inl err \<longrightarrow> awaited_result (Def g) state h = Inl err)"
  by (simp add: call_maybe_async_def awaited_result_def)

text \<open>
  \<open>mark_visited\<close> is a plain function that returns None: the adapter returns address 1,
  the dict it was given, now holding \<^verbatim>\<open>visited\<close>.
\<close>

theorem call_maybe_async_uniform_witness:
  "awaited_result mark_visited 1 working_heap
     = Inr (working_heap\<lparr>cells := (cells working_heap)
              (1 := [(''n'', JInt 0), (''visited'', JBool True)])\<rparr>, None)
   \<and> call_maybe_async mark_visited 1 working_heap
     = Inr (working_heap\<lparr>cells := (cells working_heap)
              (1 := [(''n'', JInt 0), (''visited'', JBool True)])\<rparr>, 1)"
proof -
  have r: "awaited_result mark_visited 1 working_heap
     = Inr (working_heap\<lparr>cells := (cells working_heap)
              (1 := [(''n'', JInt 0), (''visited'', JBool True)])\<rparr>, None)"
    by (simp add: awaited_result_def mark_visited_def working_heap_def)
  show ?thesis
    using r call_maybe_async_uniform
      [of mark_visited 1 working_heap
          "working_heap\<lparr>cells := (cells working_heap)
              (1 := [(''n'', JInt 0), (''visited'', JBool True)])\<rparr>"]
    by simp
qed

subsection \<open>The loop of the runner\<close>

lemma run_loop_done:
  "run_loop graph reg max_steps h state logs None steps = Inr (h, state, logs)"
  by (simp add: run_loop.simps)

lemma run_loop_budget:
  "\<not> steps < max_steps \<Longrightarrow>
   run_loop graph reg max_steps h state logs current steps = Inr (h, state, logs)"
  by (simp add: run_loop.simps split: option.splits)

lemma run_loop_missing:
  "steps < max_steps \<Longrightarrow> nodes graph cur = None \<Longrightarrow>
   run_loop graph reg max_steps h state logs (Some cur) steps
     = Inl (KeyError (''Node '' @ quoted cur @ '' not found in graph''))"
  by (simp add: run_loop.simps)

lemma run_loop_exec_raises:
  "steps < max_steps \<Longrightarrow> nodes graph cur = Some node_cfg \<Longrightarrow>
   execute_node reg node_cfg state h = Inl err \<Longrightarrow>
   run_loop graph reg max_steps h state logs (Some cur) steps = Inl err"
  by (simp add: run_loop.simps)

lemma run_loop_choose_raises:
  "steps < max_steps \<Longrightarrow> nodes graph cur = Some node_cfg \<Longrightarrow>
   execute_node reg node_cfg state h = Inr (h', state') \<Longrightarrow>
   choose_next_node graph cur (cells h' state') = Inl err \<Longrightarrow>
   run_loop graph reg max_steps h state logs (Some cur) steps = Inl err"
  by (simp add: run_loop.simps)

lemma run_loop_step:
  "steps < max_steps \<Longrightarrow> nodes graph cur = Some node_cfg \<Longrightarrow>
   execute_node reg node_cfg state h = Inr (h', state') \<Longrightarrow>
   choose_next_node graph cur (cells h' state') = Inr nxt \<Longrightarrow>
   run_loop graph reg max_steps h state logs (Some cur) steps
     = run_loop graph reg max_steps h' state'
         (logs @ [\<lparr>node = cur,
                   state_diff = compute_diff (cells h state) (cells h' state'),
                   info = description node_cfg\<rparr>])
         nxt (steps + 1)"
  by (subst run_loop.simps) simp

lemma deepcopy_example: "deepcopy 0 example_heap = (working_heap, 1)"
  by (simp add: deepcopy_def example_heap_def working_heap_def)

lemma execute_node_A:
  "execute_node example_registry node_A 1 working_heap
     = Inr (working_heap\<lparr>cells := (cells working_heap)(1 := [(''n'', JInt 1)])\<rparr>, 1)"
  by (simp add: execute_node_def node_A_def get_node_def example_registry_def
      call_maybe_async_def awaited_result_def bump_def working_heap_def dict_get_def)

subsection \<open>The shallow diff\<close>

lemma cmp_float_refl: "v \<noteq> NaN \<Longrightarrow> cmp_float v v = Equal"
  by (cases v) (simp_all add: cmp_real_def)

lemma is_nan_iff: "is_nan x = (\<exists>i. x = JFloat i NaN)"
  by (cases x rule: is_nan.cases) auto

lemma cmp_float_NaN_right: "cmp_float v NaN = Unordered"
  by (cases v) simp_all

lemma py_eq_nan: "is_nan x \<Longrightarrow> \<not> py_eq x y"
  by (cases y) (auto simp: is_nan_iff)

lemma py_eq_nan_right: "is_nan y \<Longrightarrow> \<not> py_eq x y"
  by (cases x) (auto simp: is_nan_iff cmp_float_NaN_right)

lemma py_eq_list_refl: "\<forall>x \<in> set xs. identical x x \<or> py_eq x x \<Longrightarrow> py_eq_list xs xs"
  by (induction xs) auto

lemma py_eq_items_sub:
  "\<forall>(k, v) \<in> set a. map_of b k = Some v \<and> (identical v v \<or> py_eq v v) \<Longrightarrow>
   py_eq_items a b"
  by (induction a) auto

lemma wf_list_iff: "wf_list xs = (\<forall>x \<in> set xs. wf_val x)"
  by (induction xs) auto

lemma wf_items_iff: "wf_items d = (\<forall>(k, v) \<in> set d. wf_val v)"
  by (induction d) auto

lemma py_eq_refl: "wf_val x \<Longrightarrow> (\<not> is_nan x \<longrightarrow> py_eq x x) \<and> (identical x x \<or> py_eq x x)"
proof (induction x)
  case (JFloat i v)
  then show ?case by (cases v) (simp_all add: cmp_real_def)
next
  case (JList xs)
  then show ?case by (simp add: py_eq_list_refl wf_list_iff)
next
  case (JDict d)
  have "\<forall>(k, v) \<in> set d. map_of d k = Some v \<and> (identical v v \<or> py_eq v v)"
  proof (clarify, rule conjI)
    fix k v assume kv: "(k, v) \<in> set d"
    show "map_of d k = Some v"
      using JDict.prems kv by simp
    have "v \<in> Basic_BNFs.snds (k, v)" by simp
    moreover have "wf_val v" using JDict.prems kv by (auto simp: wf_items_iff)
    ultimately show "identical v v \<or> py_eq v v" using JDict.IH kv by blast
  qed
  then show ?case by (simp add: py_eq_items_sub)
qed simp_all

lemma diff_loop_at:
  "diff_loop before after ks diff k =
     (if k \<in> set ks \<and> py_ne (dict_get before k) (dict_get after k)
      then Some (diff_entry before after k) else diff k)"
  by (induction ks arbitrary: diff) auto

lemma dict_get_absent: "k \<notin> dict_keys d \<Longrightarrow> dict_get d k = JNull"
  by (simp add: dict_get_def dict_keys_def map_of_eq_None_iff [THEN iffD2])

lemma py_ne_absent:
  "k \<notin> dict_keys before \<union> dict_keys after \<Longrightarrow>
   \<not> py_ne (dict_get before k) (dict_get after k)"
  by (simp add: dict_get_absent py_ne_def)

lemma set_all_keys: "set (all_keys before after) = dict_keys before \<union> dict_keys after"
  by (simp add: all_keys_def dict_keys_def)

lemma compute_diff_at:
  "compute_diff before after k =
     (if py_ne (dict_get before k) (dict_get after k)
      then Some (JDict [(''before'', dict_get before k), (''after'', dict_get after k)])
      else None)"
  using py_ne_absent [of k before after]
  by (auto simp: compute_diff_def diff_loop_at set_all_keys diff_entry_def)

lemma diff_loop_any_order:
  "set ks = dict_keys before \<union> dict_keys after \<Longrightarrow>
   diff_loop before after ks Map.empty = compute_diff before after"
proof (rule ext)
  fix k
  assume "set ks = dict_keys before \<union> dict_keys after"
  then show "diff_loop before after ks Map.empty k = compute_diff before after k"
    using py_ne_absent [of k before after]
    by (auto simp: compute_diff_at diff_loop_at diff_entry_def)
qed

lemma compute_diff_example:
  "compute_diff [(''x'', JInt 1), (''y'', JInt 2)]
                [(''x'', JInt 1), (''y'', JInt 3), (''z'', JInt 4)]
   = [''y'' \<mapsto> JDict [(''before'', JInt 2), (''after'', JInt 3)],
      ''z'' \<mapsto> JDict [(''before'', JNull), (''after'', JInt 4)]]"
  by (rule ext) (simp add: compute_diff_at dict_get_def py_ne_def)

text \<open>
  Claim C5, as the claim states it, fails: a key that holds the same NaN before and after
  the step is unchanged, and the diff has an entry for it, since \<^verbatim>\<open>nan != nan\<close>.
\<close>

theorem compute_diff_unchanged_nan:
  "dict_get [(''x'', JFloat 0 NaN)] ''x'' = JFloat 0 NaN
   \<and> compute_diff [(''x'', JFloat 0 NaN)] [(''x'', JFloat 0 NaN)] ''x''
       = Some (JDict [(''before'', JFloat 0 NaN), (''after'', JFloat 0 NaN)])"
  by (simp add: compute_diff_at dict_get_def py_ne_def)

text \<open>
  Claim C5, amended. The record that an iteration appends holds
  \<open>compute_diff\<close> of the snapshot taken before the step and the state after it. When it is
  appended, this diff has an entry at a key \<open>k\<close> exactly when
  \<^verbatim>\<open>before.get(k) != after.get(k)\<close>, and the entry is the pair of the two values;
  \<^verbatim>\<open>get\<close> of an absent key is None. A key that holds the same value on both sides has no
  entry unless the value is NaN, and a key that holds NaN always has one. The order in
  which the loop visits the keys does not matter. For \<^verbatim>\<open>{"x": 1, "y": 2}\<close> and
  \<^verbatim>\<open>{"x": 1, "y": 3, "z": 4}\<close> the diff is
  \<^verbatim>\<open>{"y": {"before": 2, "after": 3}, "z": {"before": None, "after": 4}}\<close>. What a record shows,
  after later steps, of an \<^verbatim>\<open>after\<close> value that is a list or a dict is not part of the
  statement.
\<close>

theorem compute_diff_when_recorded:
  "compute_diff before after k =
     (if py_eq (dict_get before k) (dict_get after k) then None
      else Some (JDict [(''before'', dict_get before k), (''after'', dict_get after k)]))
   \<and> (k \<notin> dict_keys before \<longrightarrow> dict_get before k = JNull)
   \<and> (k \<notin> dict_keys after \<longrightarrow> dict_get after k = JNull)
   \<and> (wf_val (dict_get before k) \<and> \<not> is_nan (dict_get before k)
        \<and> dict_get before k = dict_get after k
        \<longrightarrow> compute_diff before after k = None)
   \<and> (is_nan (dict_get before k) \<or> is_nan (dict_get after k)
        \<longrightarrow> compute_diff before after k
            = Some (JDict [(''before'', dict_get before k), (''after'', dict_get after k)]))
   \<and> (set ks = dict_keys before \<union> dict_keys after
        \<longrightarrow> diff_loop before after ks Map.empty = compute_diff before after)
   \<and> compute_diff [(''x'', JInt 1), (''y'', JInt 2)]
                   [(''x'', JInt 1), (''y'', JInt 3), (''z'', JInt 4)]
       = [''y'' \<mapsto> JDict [(''before'', JInt 2), (''after'', JInt 3)],
          ''z'' \<mapsto> JDict [(''before'', JNull), (''after'', JInt 4)]]
   \<and> (steps < max_steps \<and> nodes graph cur = Some node_cfg
        \<and> execute_node reg node_cfg state h = Inr (h', state')
        \<and> choose_next_node graph cur (cells h' state') = Inr nxt
        \<longrightarrow> run_loop graph reg max_steps h state logs (Some cur) steps
            = run_loop graph reg max_steps h' state'
                (logs @ [\<lparr>node = cur,
                          state_diff = compute_diff (cells h state) (cells h' state'),
                          info = description node_cfg\<rparr>])
                nxt (steps + 1))"
proof -
  have same: "wf_val (dict_get before k) \<and> \<not> is_nan (dict_get before k)
        \<and> dict_get before k = dict_get after k
        \<longrightarrow> compute_diff before after k = None"
    using py_eq_refl [of "dict_get before k"] by (auto simp: compute_diff_at py_ne_def)
  have nan: "is_nan (dict_get before k) \<or> is_nan (dict_get after k)
        \<longrightarrow> compute_diff before after k
            = Some (JDict [(''before'', dict_get before k), (''after'', dict_get after k)])"
    using py_eq_nan [of "dict_get before k" "dict_get after k"]
      py_eq_nan_right [of "dict_get after k" "dict_get before k"]
    by (auto simp: compute_diff_at py_ne_def)
  have rec: "steps < max_steps \<and> nodes graph cur = Some node_cfg
        \<and> execute_node reg node_cfg state h = Inr (h', state')
        \<and> choose_next_node graph cur (cells h' state') = Inr nxt
        \<longrightarrow> run_loop graph reg max_steps h state logs (Some cur) steps
            = run_loop graph reg max_steps h' state'
                (logs @ [\<lparr>node = cur,
                          state_diff = compute_diff (cells h state) (cells h' state'),
                          info = description node_cfg\<rparr>])
                nxt (steps + 1)"
    using run_loop_step by blast
  have at: "compute_diff before after k =
     (if py_eq (dict_get before k) (dict_get after k) then None
      else Some (JDict [(''before'', dict_get before k), (''after'', dict_get after k)]))"
    by (simp add: compute_diff_at py_ne_def)
  have order: "set ks = dict_keys before \<union> dict_keys after
        \<longrightarrow> diff_loop before after ks Map.empty = compute_diff before after"
    using diff_loop_any_order by blast
  have a1: "k \<notin> dict_keys before \<longrightarrow> dict_get before k = JNull"
    and a2: "k \<notin> dict_keys after \<longrightarrow> dict_get after k = JNull"
    by (simp_all add: dict_get_absent)
  show ?thesis
    by (intro conjI at a1 a2 same nan order compute_diff_example rec)
qed

text \<open>
  In the example of the claim, \<^verbatim>\<open>z\<close> is absent before the step and \<^verbatim>\<open>x\<close> holds 1 on both
  sides.
\<close>

theorem compute_diff_when_recorded_witness:
  "''z'' \<notin> dict_keys [(''x'', JInt 1), (''y'', JInt 2)]
   \<and> dict_get [(''x'', JInt 1), (''y'', JInt 2)] ''z'' = JNull
   \<and> set [''z'', ''x'', ''y'']
       = dict_keys [(''x'', JInt 1), (''y'', JInt 2)]
         \<union> dict_keys [(''x'', JInt 1), (''y'', JInt 3), (''z'', JInt 4)]
   \<and> diff_loop [(''x'', JInt 1), (''y'', JInt 2)]
         [(''x'', JInt 1), (''y'', JInt 3), (''z'', JInt 4)] [''z'', ''x'', ''y''] Map.empty
       = compute_diff [(''x'', JInt 1), (''y'', JInt 2)]
           [(''x'', JInt 1), (''y'', JInt 3), (''z'', JInt 4)]
   \<and> compute_diff [(''x'', JInt 1), (''y'', JInt 2)]
         [(''x'', JInt 1), (''y'', JInt 3), (''z'', JInt 4)] ''z''
       = Some (JDict [(''before'', JNull), (''after'', JInt 4)])
   \<and> wf_val (JInt 1)
   \<and> compute_diff [(''x'', JInt 1), (''y'', JInt 2)]
         [(''x'', JInt 1), (''y'', JInt 3), (''z'', JInt 4)] ''x'' = None"
proof -
  let ?b = "[(''x'', JInt 1), (''y'', JInt 2)]"
  let ?a = "[(''x'', JInt 1), (''y'', JInt 3), (''z'', JInt 4)]"
  have keys: "set [''z'', ''x'', ''y''] = dict_keys ?b \<union> dict_keys ?a"
    by (auto simp: dict_keys_def)
  have absent: "''z'' \<notin> dict_keys ?b"
    by (simp add: dict_keys_def)
  note inst = compute_diff_when_recorded [of ?b ?a "''z''" "[''z'', ''x'', ''y'']"]
  have z1: "dict_get ?b ''z'' = JNull"
    using inst absent by blast
  have z2: "diff_loop ?b ?a [''z'', ''x'', ''y''] Map.empty = compute_diff ?b ?a"
    using inst keys by blast
  have "compute_diff ?b ?a ''z''
      = (if py_eq (dict_get ?b ''z'') (dict_get ?a ''z'') then None
         else Some (JDict [(''before'', dict_get ?b ''z''), (''after'', dict_get ?a ''z'')]))"
    using inst by blast
  then have z3: "compute_diff ?b ?a ''z''
      = Some (JDict [(''before'', JNull), (''after'', JInt 4)])"
    by (simp add: dict_get_def)
  have w: "wf_val (JInt 1)" by simp
  have "wf_val (dict_get ?b ''x'') \<and> \<not> is_nan (dict_get ?b ''x'')
        \<and> dict_get ?b ''x'' = dict_get ?a ''x''"
    by (simp add: dict_get_def)
  then have x: "compute_diff ?b ?a ''x'' = None"
    using compute_diff_when_recorded [of ?b ?a "''x''"] by blast
  show ?thesis
    by (intro conjI absent z1 keys z2 z3 w x)
qed

subsection \<open>Normal termination\<close>

text \<open>
  Claim C2. Take any iteration of the loop that is within the step budget, whose node is
  in the graph and whose step function returns. If the edge selected in the new state
  leads to \<^verbatim>\<open>__end__\<close>, or if every edge that leaves the node fails to match (in
  particular if no edge leaves it), then \<^verbatim>\<open>choose_next_node\<close> returns None and the run
  returns the state and the log with the record of this step added. Nothing is assumed
  about \<^verbatim>\<open>__end__\<close> in \<open>graph.nodes\<close>: it is not looked up.
\<close>

theorem normal_termination:
  assumes "steps < max_steps"
    and "nodes graph cur = Some node_cfg"
    and "execute_node reg node_cfg state h = Inr (h', state')"
    and "(\<exists>pre e post. edges graph = pre @ e # post \<and> source e = cur
            \<and> (\<forall>x \<in> set pre. source x = cur
                  \<longrightarrow> edge_matches (cells h' state') x = Inr False)
            \<and> edge_matches (cells h' state') e = Inr True \<and> target e = ''__end__'')
         \<or> (\<forall>x \<in> set (edges graph). source x = cur
               \<longrightarrow> edge_matches (cells h' state') x = Inr False)"
  shows "choose_next_node graph cur (cells h' state') = Inr None
     \<and> run_loop graph reg max_steps h state logs (Some cur) steps
       = Inr (h', state',
              logs @ [\<lparr>node = cur,
                        state_diff = compute_diff (cells h state) (cells h' state'),
                        info = description node_cfg\<rparr>])"
proof -
  have none: "choose_next_node graph cur (cells h' state') = Inr None"
    using assms(4)
  proof (elim disjE exE conjE)
    fix pre e post
    assume "edges graph = pre @ e # post" "source e = cur"
      "\<forall>x \<in> set pre. source x = cur \<longrightarrow> edge_matches (cells h' state') x = Inr False"
      "edge_matches (cells h' state') e = Inr True" "target e = ''__end__''"
    then show ?thesis
      using choose_takes_first [of graph pre e post cur "cells h' state'"]
      by (simp add: follow_def)
  next
    assume "\<forall>x \<in> set (edges graph). source x = cur
               \<longrightarrow> edge_matches (cells h' state') x = Inr False"
    then show ?thesis by (rule choose_none)
  qed
  then show ?thesis
    using assms(1-3) by (simp add: run_loop_step run_loop_done)
qed

text \<open>
  In \<open>end_graph\<close> the only edge of A leads to \<^verbatim>\<open>__end__\<close>, which \<open>nodes\<close> does not hold:
  the run ends after the one step, with its record.
\<close>

theorem normal_termination_witness:
  "nodes end_graph ''__end__'' = None
   \<and> nodes end_graph ''A'' = Some node_A
   \<and> edge_matches [(''n'', JInt 1)] (unconditional ''A'' ''__end__'') = Inr True
   \<and> run_loop end_graph example_registry 1000 working_heap 1 [] (Some ''A'') 0
       = Inr (working_heap\<lparr>cells := (cells working_heap)(1 := [(''n'', JInt 1)])\<rparr>, 1,
              [\<lparr>node = ''A'',
                state_diff = compute_diff [(''n'', JInt 0)] [(''n'', JInt 1)],
                info = None\<rparr>])"
proof -
  have m: "edge_matches [(''n'', JInt 1)] (unconditional ''A'' ''__end__'') = Inr True"
    by (simp add: edge_matches_def unconditional_def truthy_def)
  have "(\<exists>pre e post. edges end_graph = pre @ e # post \<and> source e = ''A''
            \<and> (\<forall>x \<in> set pre. source x = ''A''
                  \<longrightarrow> edge_matches [(''n'', JInt 1)] x = Inr False)
            \<and> edge_matches [(''n'', JInt 1)] e = Inr True \<and> target e = ''__end__'')"
    using m
    by (intro exI [of _ "[]"] exI [of _ "unconditional ''A'' ''__end__''"])
       (simp add: end_graph_def unconditional_def)
  then show ?thesis
    using m execute_node_A
      normal_termination [of 0 1000 end_graph "''A''" node_A example_registry 1 working_heap
        "working_heap\<lparr>cells := (cells working_heap)(1 := [(''n'', JInt 1)])\<rparr>" 1 "[]"]
    by (simp add: end_graph_def node_A_def working_heap_def)
qed

subsection \<open>The step budget\<close>

lemma run_loop_bound:
  "run_loop graph reg max_steps h state logs current steps = Inr (h', state', logs') \<Longrightarrow>
   length logs' \<le> length logs + nat (max_steps - steps)"
proof (induction graph reg max_steps h state logs current steps rule: run_loop.induct)
  case (1 graph reg max_steps h state logs current steps)
  show ?case
  proof (cases current)
    case None
    with "1.prems" show ?thesis by (simp add: run_loop_done)
  next
    case (Some cur)
    show ?thesis
    proof (cases "steps < max_steps")
      case False
      with "1.prems" show ?thesis by (simp add: run_loop_budget)
    next
      case True
      from "1.prems" Some True obtain node_cfg where n: "nodes graph cur = Some node_cfg"
        by (cases "nodes graph cur") (auto simp: run_loop_missing)
      from "1.prems" Some True n obtain h1 state1
        where e: "execute_node reg node_cfg state h = Inr (h1, state1)"
        by (cases "execute_node reg node_cfg state h") (auto simp: run_loop_exec_raises)
      from "1.prems" Some True n e obtain nxt
        where c: "choose_next_node graph cur (cells h1 state1) = Inr nxt"
        by (cases "choose_next_node graph cur (cells h1 state1)")
           (auto simp: run_loop_choose_raises)
      let ?logs1 = "logs @ [\<lparr>node = cur,
                   state_diff = compute_diff (cells h state) (cells h1 state1),
                   info = description node_cfg\<rparr>]"
      have "run_loop graph reg max_steps h1 state1 ?logs1 nxt (steps + 1)
              = Inr (h', state', logs')"
        using "1.prems" Some True n e c by (simp add: run_loop_step)
      then have "length logs' \<le> length ?logs1 + nat (max_steps - (steps + 1))"
        using "1.IH" Some True n e c by simp
      with True show ?thesis by simp
    qed
  qed
qed

lemma iteration_Some:
  "iteration graph reg h state cur = Some (h', state', nxt, entry) \<Longrightarrow>
   \<exists>node_cfg. nodes graph cur = Some node_cfg
     \<and> execute_node reg node_cfg state h = Inr (h', state')
     \<and> choose_next_node graph cur (cells h' state') = Inr (Some nxt)
     \<and> entry = \<lparr>node = cur,
                 state_diff = compute_diff (cells h state) (cells h' state'),
                 info = description node_cfg\<rparr>"
  by (auto simp: iteration_def split: option.splits sum.splits)

lemma run_loop_iterations:
  "iterations graph reg n h state cur = Some (h', state', cur', entries) \<Longrightarrow>
   run_loop graph reg (steps + int n) h state logs (Some cur) steps
     = Inr (h', state', logs @ entries) \<and> length entries = n"
proof (induction n arbitrary: h state cur logs steps entries)
  case 0
  then show ?case by (simp add: run_loop_budget)
next
  case (Suc n)
  from Suc.prems obtain h1 state1 nxt entry rest where
    it: "iteration graph reg h state cur = Some (h1, state1, nxt, entry)" and
    its: "iterations graph reg n h1 state1 nxt = Some (h', state', cur', rest)" and
    es: "entries = entry # rest"
    by (auto split: option.splits)
  from iteration_Some [OF it] obtain node_cfg where
    n: "nodes graph cur = Some node_cfg" and
    e: "execute_node reg node_cfg state h = Inr (h1, state1)" and
    c: "choose_next_node graph cur (cells h1 state1) = Inr (Some nxt)" and
    en: "entry = \<lparr>node = cur,
                 state_diff = compute_diff (cells h state) (cells h1 state1),
                 info = description node_cfg\<rparr>"
    by blast
  have "steps < steps + int (Suc n)" by simp
  then have step: "run_loop graph reg (steps + int (Suc n)) h state logs (Some cur) steps
      = run_loop graph reg (steps + int (Suc n)) h1 state1 (logs @ [entry]) (Some nxt) (steps + 1)"
    unfolding en using n e c by (rule run_loop_step)
  have eq: "steps + 1 + int n = steps + int (Suc n)" by simp
  from Suc.IH [OF its, of "steps + 1" "logs @ [entry]"]
  have "run_loop graph reg (steps + int (Suc n)) h1 state1 (logs @ [entry]) (Some nxt) (steps + 1)
          = Inr (h', state', (logs @ [entry]) @ rest) \<and> length rest = n"
    unfolding eq .
  with step es show ?case by simp
qed

lemma keeps_going_iterations:
  "keeps_going graph reg visits \<Longrightarrow> visits h state cur \<Longrightarrow>
   \<exists>h' state' cur' entries. iterations graph reg n h state cur = Some (h', state', cur', entries)
      \<and> visits h' state' cur'"
proof (induction n arbitrary: h state cur)
  case 0
  then show ?case by simp
next
  case (Suc n)
  from Suc.prems obtain node_cfg h1 state1 nxt where
    "nodes graph cur = Some node_cfg" "execute_node reg node_cfg state h = Inr (h1, state1)"
    "choose_next_node graph cur (cells h1 state1) = Inr (Some nxt)" and v: "visits h1 state1 nxt"
    unfolding keeps_going_def by blast
  then have it: "\<exists>entry. iteration graph reg h state cur = Some (h1, state1, nxt, entry)"
    by (simp add: iteration_def)
  from Suc.IH [OF Suc.prems(1) v] obtain h' state' cur' rest where
    "iterations graph reg n h1 state1 nxt = Some (h', state', cur', rest)" "visits h' state' cur'"
    by blast
  with it show ?case by auto
qed

lemma run_graph_iterations:
  assumes "deepcopy initial_state h = (h0, state0)"
    and "iterations graph reg n h0 state0 (entrypoint graph) = Some (h', state', cur', entries)"
  shows "run_graph graph reg initial_state (int n) h = Inr (h', state', entries)
     \<and> length entries = n"
proof -
  have "run_loop graph reg (0 + int n) h0 state0 [] (Some (entrypoint graph)) 0
          = Inr (h', state', [] @ entries) \<and> length entries = n"
    using assms(2) by (rule run_loop_iterations)
  then show ?thesis
    unfolding run_graph_def assms(1) by simp
qed

lemma node_settled: "node (settled entry) = node entry"
  by (simp add: settled_def)

lemma iteration_cycle_A:
  "iteration cycle_graph example_registry h state ''A''
     = Some (h\<lparr>cells := (cells h)(state := dict_set (cells h state) ''n''
                (case dict_get (cells h state) ''n'' of JInt n \<Rightarrow> JInt (n + 1) | _ \<Rightarrow> JInt 1))\<rparr>,
             state, ''B'',
             \<lparr>node = ''A'',
              state_diff = compute_diff (cells h state)
                (dict_set (cells h state) ''n''
                   (case dict_get (cells h state) ''n'' of JInt n \<Rightarrow> JInt (n + 1) | _ \<Rightarrow> JInt 1)),
              info = None\<rparr>)"
  by (simp add: iteration_def cycle_graph_def node_A_def execute_node_def get_node_def
      example_registry_def call_maybe_async_def awaited_result_def bump_def
      choose_next_node_def candidates_def unconditional_def truthy_def follow_def)

lemma iteration_cycle_B:
  "iteration cycle_graph example_registry h state ''B''
     = Some (h\<lparr>cells := (cells h)(state := dict_set (cells h state) ''visited'' (JBool True))\<rparr>,
             state, ''A'',
             \<lparr>node = ''B'',
              state_diff = compute_diff (cells h state)
                (dict_set (cells h state) ''visited'' (JBool True)),
              info = None\<rparr>)"
  by (simp add: iteration_def cycle_graph_def node_B_def execute_node_def get_node_def
      example_registry_def call_maybe_async_def awaited_result_def mark_visited_def
      choose_next_node_def candidates_def unconditional_def truthy_def follow_def)

lemma ten:
  "case iterations cycle_graph example_registry 10 working_heap 1 ''A'' of
     None \<Rightarrow> False
   | Some (h', state', cur', entries) \<Rightarrow>
       state' = 1 \<and> cur' = ''A''
       \<and> cells h' 1 = [(''n'', JInt 5), (''visited'', JBool True)]
       \<and> cells h' 0 = [(''n'', JInt 0)]
       \<and> map node entries
           = [''A'', ''B'', ''A'', ''B'', ''A'', ''B'', ''A'', ''B'', ''A'', ''B'']"
  by (simp add: eval_nat_numeral iteration_cycle_A iteration_cycle_B working_heap_def
      dict_get_def)

lemma ten_iterations:
  "\<exists>h' entries. iterations cycle_graph example_registry 10 working_heap 1 ''A''
       = Some (h', 1, ''A'', entries)
     \<and> cells h' 1 = [(''n'', JInt 5), (''visited'', JBool True)]
     \<and> map node entries
         = [''A'', ''B'', ''A'', ''B'', ''A'', ''B'', ''A'', ''B'', ''A'', ''B'']"
  using ten by (auto split: option.splits)

text \<open>
  Claim C3. Let the traversal go on for \<open>n\<close> iterations from the copied state without
  reaching a terminating transition. Then \<^verbatim>\<open>run_graph\<close> with a budget of \<open>n\<close> (10, say)
  returns, without an error, the state that these \<open>n\<close> iterations have built up and
  exactly \<open>n\<close> step records, which are the records of these iterations in order, as
  far as they are settled. A traversal that never reaches a terminating transition goes
  on for any number \<open>m\<close> of iterations, and the same holds of it for every budget \<open>m\<close>.
  Whatever the graph, a run that returns holds at most \<open>max_steps\<close> records.
\<close>

theorem budget_exhaustion_is_silent:
  assumes "deepcopy initial_state h = (h0, state0)"
    and "iterations graph reg n h0 state0 (entrypoint graph) = Some (h', state', cur', entries)"
  shows "(\<exists>logs. run_graph graph reg initial_state (int n) h = Inr (h', state', logs)
            \<and> length logs = n \<and> map settled logs = map settled entries)
     \<and> (keeps_going graph reg visits \<and> visits h0 state0 (entrypoint graph)
          \<longrightarrow> (\<exists>h1 state1 cur1 entries1 logs1.
                iterations graph reg m h0 state0 (entrypoint graph)
                  = Some (h1, state1, cur1, entries1)
                \<and> run_graph graph reg initial_state (int m) h = Inr (h1, state1, logs1)
                \<and> length logs1 = m \<and> map settled logs1 = map settled entries1))
     \<and> (run_graph graph2 reg2 initial_state2 max_steps2 h2 = Inr (h2', state2', logs2)
          \<longrightarrow> length logs2 \<le> nat max_steps2)"
proof -
  have first: "\<exists>logs. run_graph graph reg initial_state (int n) h = Inr (h', state', logs)
            \<and> length logs = n \<and> map settled logs = map settled entries"
    using run_graph_iterations [OF assms] by blast
  have second: "keeps_going graph reg visits \<and> visits h0 state0 (entrypoint graph)
          \<longrightarrow> (\<exists>h1 state1 cur1 entries1 logs1.
                iterations graph reg m h0 state0 (entrypoint graph)
                  = Some (h1, state1, cur1, entries1)
                \<and> run_graph graph reg initial_state (int m) h = Inr (h1, state1, logs1)
                \<and> length logs1 = m \<and> map settled logs1 = map settled entries1)"
  proof
    assume "keeps_going graph reg visits \<and> visits h0 state0 (entrypoint graph)"
    then obtain h1 state1 cur1 entries1 where
      it: "iterations graph reg m h0 state0 (entrypoint graph) = Some (h1, state1, cur1, entries1)"
      using keeps_going_iterations [of graph reg visits h0 state0 "entrypoint graph" m]
      by blast
    from run_graph_iterations [OF assms(1) it]
    have "run_graph graph reg initial_state (int m) h = Inr (h1, state1, entries1)
            \<and> length entries1 = m" .
    with it show "\<exists>h1 state1 cur1 entries1 logs1.
                iterations graph reg m h0 state0 (entrypoint graph)
                  = Some (h1, state1, cur1, entries1)
                \<and> run_graph graph reg initial_state (int m) h = Inr (h1, state1, logs1)
                \<and> length logs1 = m \<and> map settled logs1 = map settled entries1"
      by blast
  qed
  have third: "run_graph graph2 reg2 initial_state2 max_steps2 h2 = Inr (h2', state2', logs2)
          \<longrightarrow> length logs2 \<le> nat max_steps2"
    using run_loop_bound [of graph2 reg2 max_steps2 _ _ "[]" _ 0 h2' state2' logs2]
    by (auto simp: run_graph_def split: prod.splits)
  show ?thesis by (intro conjI first second third)
qed

text \<open>
  The two-node cycle with a budget of 10: ten records, of A and B in turn, and the state
  \<^verbatim>\<open>{"n": 5, "visited": True}\<close>.
\<close>

theorem budget_exhaustion_is_silent_witness:
  "deepcopy 0 example_heap = (working_heap, 1)
   \<and> (case run_graph cycle_graph example_registry 0 10 example_heap of
         Inl err \<Rightarrow> False
       | Inr (h', state', logs) \<Rightarrow>
           state' = 1 \<and> cells h' 1 = [(''n'', JInt 5), (''visited'', JBool True)]
           \<and> length logs = 10
           \<and> map node logs
               = [''A'', ''B'', ''A'', ''B'', ''A'', ''B'', ''A'', ''B'', ''A'', ''B''])"
proof -
  from ten_iterations obtain h' entries where
    it: "iterations cycle_graph example_registry 10 working_heap 1 (entrypoint cycle_graph)
           = Some (h', 1, ''A'', entries)"
    and d: "cells h' 1 = [(''n'', JInt 5), (''visited'', JBool True)]"
    and ns: "map node entries
         = [''A'', ''B'', ''A'', ''B'', ''A'', ''B'', ''A'', ''B'', ''A'', ''B'']"
    by (auto simp: cycle_graph_def)
  have ten: "int 10 = 10" by simp
  from budget_exhaustion_is_silent [OF deepcopy_example it]
  obtain logs where
    r: "run_graph cycle_graph example_registry 0 10 example_heap = Inr (h', 1, logs)"
    and l: "length logs = 10" and s: "map settled logs = map settled entries"
    unfolding ten by blast
  have "map node logs = map (node \<circ> settled) logs"
    by (simp add: node_settled comp_def)
  also have "\<dots> = map node (map settled logs)"
    by simp
  also have "\<dots> = map node (map settled entries)"
    unfolding s ..
  also have "\<dots> = map node entries"
    by (simp add: node_settled comp_def)
  finally have n: "map node logs
         = [''A'', ''B'', ''A'', ''B'', ''A'', ''B'', ''A'', ''B'', ''A'', ''B'']"
    unfolding ns .
  have res: "case run_graph cycle_graph example_registry 0 10 example_heap of
         Inl err \<Rightarrow> False
       | Inr (h', state', logs) \<Rightarrow>
           state' = 1 \<and> cells h' 1 = [(''n'', JInt 5), (''visited'', JBool True)]
           \<and> length logs = 10
           \<and> map node logs
               = [''A'', ''B'', ''A'', ''B'', ''A'', ''B'', ''A'', ''B'', ''A'', ''B'']"
    unfolding r by (simp only: sum.case prod.case d l n simp_thms)
  show ?thesis by (intro conjI deepcopy_example res)
qed

subsection \<open>The caller's state\<close>












subsection \<open>Failures\<close>








lemma walk_null: "walk JNull ps = JNull"
  by (cases ps) simp_all

lemma get_from_state_absent:
  "hd (split_dot key) \<notin> dict_keys state \<Longrightarrow> get_from_state state key = JNull"
proof -
  assume a: "hd (split_dot key) \<notin> dict_keys state"
  obtain p ps where sp: "split_dot key = p # ps"
    using split_dot_not_Nil [of key] by (cases "split_dot key") auto
  with a have "dict_get state p = JNull" by (simp add: dict_get_absent)
  with sp show ?thesis by (simp add: get_from_state_def walk_null)
qed

lemma py_cmp_null: "py_cmp JNull y = Inl (''NoneType'', type_name y)"
  by (cases y) simp_all

lemma compare_null_ordering:
  "op \<in> {''<'', ''>'', ''<='', ''>=''} \<Longrightarrow>
   compare JNull (Some op) rhs
     = Inl (TypeError (quoted op @ '' not supported between instances of ''
              @ quoted ''NoneType'' @ '' and '' @ quoted (type_name rhs)))"
  by (auto simp: compare_def py_lt_def py_gt_def py_le_def py_ge_def py_order_def py_cmp_null)

lemma choose_raises_first:
  assumes "edges graph = pre @ e # post"
    and "source e = cur"
    and "\<forall>x \<in> set pre. source x = cur \<longrightarrow> edge_matches state x = Inr False"
    and "edge_matches state e = Inl err"
  shows "choose_next_node graph cur state = Inl err"
proof -
  let ?own = "\<lambda>x. source x = cur"
  have "candidates graph cur = filter ?own pre @ e # filter ?own post"
    using assms(1,2) by (simp add: candidates_def)
  moreover have "\<forall>x \<in> set (filter ?own pre). edge_matches state x = Inr False"
    using assms(3) by simp
  ultimately have "choose_next_node graph cur state
      = scan_candidates state (e # filter ?own post)"
    unfolding choose_next_node_def by (simp only: scan_skip)
  also have "\<dots> = Inl err"
    using assms(4) by (rule scan_raise)
  finally show ?thesis .
qed

text \<open>
  Claim C10. Take an iteration whose step function returns, and let the first edge of the
  node that is not a plain non-match carry an ordering operator and a condition key
  whose first piece the new state does not hold. Then the lookup is None, \<^verbatim>\<open>_compare\<close>
  raises a \<^verbatim>\<open>TypeError\<close>, \<^verbatim>\<open>choose_next_node\<close> raises it, and it leaves \<^verbatim>\<open>run_graph\<close>: the
  edge is not treated as one that does not match.
\<close>

theorem undefined_comparison_raises:
  assumes "steps < max_steps"
    and "nodes graph cur = Some node_cfg"
    and "execute_node reg node_cfg state h = Inr (h', state')"
    and "edges graph = pre @ e # post"
    and "source e = cur"
    and "\<forall>x \<in> set pre. source x = cur \<longrightarrow> edge_matches (cells h' state') x = Inr False"
    and "condition_key e = Some key"
    and "key \<noteq> []"
    and "hd (split_dot key) \<notin> dict_keys (cells h' state')"
    and "operator e = Some op"
    and "op \<in> {''<'', ''>'', ''<='', ''>=''}"
  shows "get_from_state (cells h' state') key = JNull
     \<and> compare JNull (Some op) (value e)
         = Inl (TypeError (quoted op @ '' not supported between instances of ''
                  @ quoted ''NoneType'' @ '' and '' @ quoted (type_name (value e))))
     \<and> choose_next_node graph cur (cells h' state')
         = Inl (TypeError (quoted op @ '' not supported between instances of ''
                  @ quoted ''NoneType'' @ '' and '' @ quoted (type_name (value e))))
     \<and> run_loop graph reg max_steps h state logs (Some cur) steps
         = Inl (TypeError (quoted op @ '' not supported between instances of ''
                  @ quoted ''NoneType'' @ '' and '' @ quoted (type_name (value e))))"
proof -
  let ?err = "TypeError (quoted op @ '' not supported between instances of ''
                  @ quoted ''NoneType'' @ '' and '' @ quoted (type_name (value e)))"
  have g: "get_from_state (cells h' state') key = JNull"
    using assms(9) by (rule get_from_state_absent)
  have c: "compare JNull (Some op) (value e) = Inl ?err"
    using assms(11) by (rule compare_null_ordering)
  have m: "edge_matches (cells h' state') e = Inl ?err"
    using assms(7,8,10) g c by (simp add: edge_matches_def truthy_def)
  have ch: "choose_next_node graph cur (cells h' state') = Inl ?err"
    using assms(4,5,6) m by (rule choose_raises_first)
  have r: "run_loop graph reg max_steps h state logs (Some cur) steps = Inl ?err"
    using assms(1,2,3) ch by (rule run_loop_choose_raises)
  show ?thesis by (intro conjI g c ch r)
qed

text \<open>
  \<open>lt_graph\<close> asks for \<^verbatim>\<open>score < 5\<close> and the state holds no \<^verbatim>\<open>score\<close>: the run raises
  \<^verbatim>\<open>'<' not supported between instances of 'NoneType' and 'int'\<close>.
\<close>

theorem undefined_comparison_raises_witness:
  "nodes lt_graph ''A'' = Some node_A
   \<and> execute_node example_registry node_A 1 working_heap
       = Inr (working_heap\<lparr>cells := (cells working_heap)(1 := [(''n'', JInt 1)])\<rparr>, 1)
   \<and> split_dot ''score'' = [''score'']
   \<and> ''score'' \<notin> dict_keys [(''n'', JInt 1)]
   \<and> run_graph lt_graph example_registry 0 1000 example_heap
       = Inl (TypeError (quoted ''<'' @ '' not supported between instances of ''
                @ quoted ''NoneType'' @ '' and '' @ quoted ''int''))"
proof -
  let ?e = "\<lparr>source = ''A'', target = ''A'', condition_key = Some ''score'',
             operator = Some ''<'', value = JInt 5\<rparr>"
  let ?h1 = "working_heap\<lparr>cells := (cells working_heap)(1 := [(''n'', JInt 1)])\<rparr>"
  have n: "nodes lt_graph ''A'' = Some node_A" by (simp add: lt_graph_def)
  have sp: "split_dot ''score'' = [''score'']" by simp
  have k: "''score'' \<notin> dict_keys [(''n'', JInt 1)]" by (simp add: dict_keys_def)
  have k': "hd (split_dot ''score'') \<notin> dict_keys (cells ?h1 1)"
    using k by (simp add: working_heap_def)
  have "run_loop lt_graph example_registry 1000 working_heap 1 [] (Some ''A'') 0
      = Inl (TypeError (quoted ''<'' @ '' not supported between instances of ''
                @ quoted ''NoneType'' @ '' and '' @ quoted (type_name (value ?e))))"
    using undefined_comparison_raises
      [of 0 1000 lt_graph "''A''" node_A example_registry 1 working_heap ?h1 1 "[]" ?e "[]"
          "''score''" "''<''" "[]", OF _ n execute_node_A _ _ _ _ _ k']
    by (simp add: lt_graph_def)
  then have r: "run_graph lt_graph example_registry 0 1000 example_heap
       = Inl (TypeError (quoted ''<'' @ '' not supported between instances of ''
                @ quoted ''NoneType'' @ '' and '' @ quoted ''int''))"
    by (simp add: run_graph_def deepcopy_example lt_graph_def)
  show ?thesis by (intro conjI n execute_node_A sp k r)
qed






end
